theory Spec2Isabelle
  imports Complex_Main "HOL-Library.Sublist"
begin

section \<open>Data model (types.ts)\<close>

text \<open>
  The coordinates, distances, durations and scores of the program are modelled as reals:
  the geodesic arithmetic below is the exact arithmetic that the IEEE doubles of the program
  approximate, with \<open>sin\<close>, \<open>cos\<close>, \<open>arcsin\<close>, \<open>sqrt\<close> and \<open>atan2\<close> on the reals for
  the functions of \<open>Math\<close>, whose rounding JavaScript leaves to the implementation.  Where
  a rounding decides the result of the program, in \<open>formatDuration\<close>, the numbers are
  binary64 values, with the infinities and NaN.  An offset of the detour search is an
  \<open>int\<close>.

  \<open>LatLng\<close> is an extensible record and \<open>Pin\<close> extends it, as a TypeScript \<open>Pin\<close> is
  accepted wherever a \<open>LatLng\<close> is expected.  The functions that take pins are polymorphic
  in the extension slot of \<open>Pin\<close>, which stands for whatever else distinguishes two objects
  of the program: equality of the model's pins is identity of the program's objects.
\<close>

record LatLng =
  lat :: real
  lng :: real

datatype SafetyLevel = SAFE | CAUTION | DANGER

record Pin = LatLng +
  pin_id :: string
  safetyLevel :: SafetyLevel
  description :: string
  timestamp :: real
  userId :: string

record RouteResponse =
  route :: "LatLng list"
  duration :: "string option"
  safetyNote :: "string option"

section \<open>Helpers of geminiService.ts\<close>

subsection \<open>Library functions of JavaScript\<close>

text \<open>\<open>Math.atan2(y, x)\<close> on reals (signed zeros are one zero here).\<close>

definition atan2 :: "real \<Rightarrow> real \<Rightarrow> real" where
  "atan2 y x =
     (if 0 < x then arctan (y / x)
      else if x < 0 then (if 0 \<le> y then arctan (y / x) + pi else arctan (y / x) - pi)
      else if 0 < y then pi / 2
      else if y < 0 then - (pi / 2)
      else 0)"

text \<open>The remainder \<open>x % y\<close>: the quotient is truncated towards zero, the result has the
  sign of \<open>x\<close>.\<close>

definition trunc :: "real \<Rightarrow> int" where
  "trunc x = (if 0 \<le> x then \<lfloor>x\<rfloor> else \<lceil>x\<rceil>)"

definition js_rem :: "real \<Rightarrow> real \<Rightarrow> real" where
  "js_rem x y = x - y * of_int (trunc (x / y))"

text \<open>An integer in a template literal: its decimal digits, with a minus sign when
  negative (JavaScript prints an integer-valued number so below \<open>10^21\<close>).\<close>

definition digit_char :: "nat \<Rightarrow> char" where
  "digit_char d = ''0123456789'' ! d"

fun showNat :: "nat \<Rightarrow> string" where
  "showNat n = (if n < 10 then [digit_char n] else showNat (n div 10) @ [digit_char (n mod 10)])"

declare showNat.simps [simp del]

definition showInt :: "int \<Rightarrow> string" where
  "showInt i = (if i < 0 then CHR ''-'' # showNat (nat (- i)) else showNat (nat i))"

subsection \<open>getDistanceMeters, getBearing, getDestinationPoint\<close>

definition getDistanceMeters :: "'a LatLng_scheme \<Rightarrow> 'b LatLng_scheme \<Rightarrow> real" where
  "getDistanceMeters p1 p2 =
     (let R = 6371000;
          phi1 = lat p1 * pi / 180;
          phi2 = lat p2 * pi / 180;
          dphi = (lat p2 - lat p1) * pi / 180;
          dlam = (lng p2 - lng p1) * pi / 180;
          a = sin (dphi / 2) * sin (dphi / 2) +
              cos phi1 * cos phi2 * sin (dlam / 2) * sin (dlam / 2);
          c = 2 * atan2 (sqrt a) (sqrt (1 - a))
      in R * c)"

text \<open>The quantity \<open>a\<close> of \<open>getDistanceMeters\<close>, as a function of the two latitudes and
  of the difference of the longitudes, in radians.  In exact arithmetic it lies between 0
  and 1 and both square roots are defined; the doubles of the program can round it above 1
  for nearly antipodal points, where the program returns NaN.  The model has no such
  case.\<close>

definition haversine :: "real \<Rightarrow> real \<Rightarrow> real \<Rightarrow> real" where
  "haversine phi1 phi2 dlam =
     sin ((phi2 - phi1) / 2) * sin ((phi2 - phi1) / 2) +
     cos phi1 * cos phi2 * sin (dlam / 2) * sin (dlam / 2)"

definition getBearing :: "'a LatLng_scheme \<Rightarrow> 'b LatLng_scheme \<Rightarrow> real" where
  "getBearing start end =
     (let startLat = lat start * pi / 180;
          startLng = lng start * pi / 180;
          destLat = lat end * pi / 180;
          destLng = lng end * pi / 180;
          y = sin (destLng - startLng) * cos destLat;
          x = cos startLat * sin destLat -
              sin startLat * cos destLat * cos (destLng - startLng);
          brng = atan2 y x
      in js_rem (brng * 180 / pi + 360) 360)"

definition getDestinationPoint :: "'a LatLng_scheme \<Rightarrow> real \<Rightarrow> real \<Rightarrow> LatLng" where
  "getDestinationPoint start distanceMeters bearing =
     (let R = 6371000;
          angDist = distanceMeters / R;
          brng = bearing * pi / 180;
          lat1 = lat start * pi / 180;
          lon1 = lng start * pi / 180;
          lat2 = arcsin (sin lat1 * cos angDist + cos lat1 * sin angDist * cos brng);
          lon2 = lon1 + atan2 (sin brng * sin angDist * cos lat1)
                              (cos angDist - sin lat1 * sin lat2)
      in \<lparr>lat = lat2 * 180 / pi, lng = lon2 * 180 / pi\<rparr>)"

subsection \<open>formatDuration\<close>

text \<open>
  The result of \<open>formatDuration\<close> is decided by the rounding of the product and of the
  quotient, so here the numbers of the program are modelled as they are: IEEE 754 binary64
  values.  A number is a finite value, carried as the real it denotes, an infinity or NaN;
  the two zeros are one zero, which no operation below tells apart.  \<open>fl\<close> rounds an
  exact real result to the nearest binary64 value, ties to the even significand, gradually
  underflowing below \<open>2^-1022\<close> and overflowing to an infinity from \<open>2^1024 - 2^970\<close> on.
\<close>

datatype 'a ext = Fin 'a | PlusInfinity | MinusInfinity | NaN

type_synonym number = "real ext"

fun ilog2 :: "nat \<Rightarrow> nat" where
  "ilog2 n = (if n < 2 then 0 else Suc (ilog2 (n div 2)))"

declare ilog2.simps [simp del]

text \<open>The binary exponent of a non-zero real: the integer \<open>e\<close> with
  \<open>2^e \<le> \<bar>x\<bar> < 2^(e+1)\<close>.\<close>

definition exponent :: "real \<Rightarrow> int" where
  "exponent x =
     (if 1 \<le> \<bar>x\<bar> then int (ilog2 (nat \<lfloor>\<bar>x\<bar>\<rfloor>))
      else - int (ilog2 (nat (\<lceil>1 / \<bar>x\<bar>\<rceil> - 1))) - 1)"

definition pow2 :: "int \<Rightarrow> real" where
  "pow2 k = (if 0 \<le> k then 2 ^ nat k else 1 / 2 ^ nat (- k))"

definition round_even :: "real \<Rightarrow> int" where
  "round_even q =
     (let f = \<lfloor>q\<rfloor>; r = q - of_int f
      in if r < 1 / 2 then f else if 1 / 2 < r then f + 1 else if even f then f else f + 1)"

definition fl :: "real \<Rightarrow> number" where
  "fl x =
     (if x = 0 then Fin 0
      else let u = pow2 (max (exponent x - 52) (- 1074));
               y = of_int (round_even (x / u)) * u
           in if pow2 1024 \<le> y then PlusInfinity
              else if y \<le> - pow2 1024 then MinusInfinity
              else Fin y)"

text \<open>The literal \<open>1.2\<close> is the binary64 value nearest to it.\<close>

definition d12 :: real where
  "d12 = 5404319552844595 / 2 ^ 52"

text \<open>
  The operations of \<open>formatDuration\<close>.  The second operand of \<open>*\<close>, \<open>/\<close>, \<open><\<close> and \<open>%\<close>
  is a positive finite constant there, and the operations are modelled for such an
  operand.  \<open>Math.ceil\<close> and \<open>Math.floor\<close> give an integer, an infinity or NaN; the
  remainder of an integer by an integer is exact and has the sign of the dividend.
\<close>

definition js_times :: "number \<Rightarrow> real \<Rightarrow> number" where
  "js_times x c = (case x of Fin a \<Rightarrow> fl (a * c) | _ \<Rightarrow> x)"

definition js_over :: "number \<Rightarrow> real \<Rightarrow> number" where
  "js_over x c = (case x of Fin a \<Rightarrow> fl (a / c) | _ \<Rightarrow> x)"

definition js_ceil :: "number \<Rightarrow> int ext" where
  "js_ceil x =
     (case x of Fin a \<Rightarrow> Fin \<lceil>a\<rceil> | PlusInfinity \<Rightarrow> PlusInfinity
      | MinusInfinity \<Rightarrow> MinusInfinity | NaN \<Rightarrow> NaN)"

definition js_floor :: "number \<Rightarrow> int ext" where
  "js_floor x =
     (case x of Fin a \<Rightarrow> Fin \<lfloor>a\<rfloor> | PlusInfinity \<Rightarrow> PlusInfinity
      | MinusInfinity \<Rightarrow> MinusInfinity | NaN \<Rightarrow> NaN)"

definition to_number :: "int ext \<Rightarrow> number" where
  "to_number x =
     (case x of Fin i \<Rightarrow> Fin (of_int i) | PlusInfinity \<Rightarrow> PlusInfinity
      | MinusInfinity \<Rightarrow> MinusInfinity | NaN \<Rightarrow> NaN)"

definition js_less :: "int ext \<Rightarrow> int \<Rightarrow> bool" where
  "js_less x c = (case x of Fin i \<Rightarrow> i < c | MinusInfinity \<Rightarrow> True | _ \<Rightarrow> False)"

definition js_mod :: "int ext \<Rightarrow> int \<Rightarrow> int ext" where
  "js_mod x c =
     (case x of Fin i \<Rightarrow> Fin (if 0 \<le> i then i mod c else - ((- i) mod c)) | _ \<Rightarrow> NaN)"

text \<open>
  An integer-valued number in a template literal.  Below \<open>2^53\<close> the digits are those of
  the integer.  From there on they are the shortest decimal that rounds to the number:
  among the multiples of the highest power of ten that has a multiple rounding to it, the
  one nearest to it, printed in full below \<open>10^21\<close> and with an exponent from there on.
\<close>

fun scale :: "nat \<Rightarrow> nat \<Rightarrow> nat" where
  "scale 0 x = 0"
| "scale (Suc j) x =
     (let lo = (x div 10 ^ Suc j) * 10 ^ Suc j; hi = lo + 10 ^ Suc j
      in if (0 < lo \<and> fl (real lo) = Fin (real x)) \<or> fl (real hi) = Fin (real x) then Suc j
         else scale j x)"

declare scale.simps [simp del]

definition shortest :: "nat \<Rightarrow> nat \<times> nat" where
  "shortest x =
     (let j = scale (length (showNat x)) x;
          lo = (x div 10 ^ j) * 10 ^ j; hi = lo + 10 ^ j;
          lo_ok = (0 < lo \<and> fl (real lo) = Fin (real x));
          hi_ok = (fl (real hi) = Fin (real x));
          c = (if lo_ok \<and> hi_ok
               then (if x - lo < hi - x then lo else if hi - x < x - lo then hi
                     else if even (lo div 10 ^ j) then lo else hi)
               else if lo_ok then lo else hi)
      in (c div 10 ^ j, j))"

definition showDouble :: "nat \<Rightarrow> string" where
  "showDouble x =
     (if x < 2 ^ 53 then showNat x
      else let (s, j) = shortest x; ds = showNat s; n = length ds + j
           in if n \<le> 21 then ds @ replicate j CHR ''0''
              else (if length ds = 1 then ds else hd ds # CHR ''.'' # tl ds) @ ''e+'' @ showNat (n - 1))"

definition numberToString :: "int ext \<Rightarrow> string" where
  "numberToString x =
     (case x of
        Fin i \<Rightarrow> if i < 0 then CHR ''-'' # showDouble (nat (- i)) else showDouble (nat i)
      | PlusInfinity \<Rightarrow> ''Infinity''
      | MinusInfinity \<Rightarrow> ''-Infinity''
      | NaN \<Rightarrow> ''NaN'')"

text \<open>Lines 57 to 69, on any number.\<close>

definition formatDuration_number :: "number \<Rightarrow> string" where
  "formatDuration_number seconds =
     (let adjustedSeconds = js_times seconds d12;
          totalMinutes = js_ceil (js_over adjustedSeconds 60)
      in if js_less totalMinutes 60 then numberToString totalMinutes @ '' min walk''
         else let hours = js_floor (js_over (to_number totalMinutes) 60);
                  mins = js_mod totalMinutes 60
              in numberToString hours @ '' hr '' @ numberToString mins @ '' min walk'')"

text \<open>The duration of a route of the provider is a finite number (\<open>data_duration\<close> below):
  \<open>formatDuration\<close> on it.\<close>

definition formatDuration :: "real \<Rightarrow> string" where
  "formatDuration seconds = formatDuration_number (Fin seconds)"

subsection \<open>checkRouteConflicts\<close>

text \<open>
  A JavaScript \<open>Set\<close> keeps its elements in the order of their first insertion and
  \<open>Array.from\<close> returns them in that order: the set under construction is a list, and
  \<open>add\<close> appends an element that is not in it yet.
\<close>

definition set_add :: "'a \<Rightarrow> 'a list \<Rightarrow> 'a list" where
  "set_add x xs = (if x \<in> set xs then xs else xs @ [x])"

definition checkRouteConflicts ::
  "LatLng list \<Rightarrow> 'a Pin_scheme list \<Rightarrow> 'b LatLng_scheme \<Rightarrow> 'c LatLng_scheme \<Rightarrow> 'a Pin_scheme list"
where
  "checkRouteConflicts routePath pins startLoc endLoc =
     (let DANGER_THRESHOLD_METERS = (150 :: real);
          IGNORE_TERMINAL_DISTANCE = (80 :: real);
          dangerPins = filter (\<lambda>p. safetyLevel p = DANGER) pins
      in foldl (\<lambda>conflicts point.
           foldl (\<lambda>conflicts pin.
             let distToPin = getDistanceMeters point pin
             in if distToPin < DANGER_THRESHOLD_METERS
                then let distToStart = getDistanceMeters pin startLoc;
                         distToEnd = getDistanceMeters pin endLoc
                     in if distToStart > IGNORE_TERMINAL_DISTANCE \<and> distToEnd > IGNORE_TERMINAL_DISTANCE
                        then set_add pin conflicts
                        else conflicts
                else conflicts)
             conflicts dangerPins)
         [] routePath)"

subsection \<open>fetchOSRMRoute\<close>

text \<open>
  The routing provider is a parameter: a function from the request (the positions of the
  URL, longitude first, in the URL's order) to what \<open>fetch\<close> and \<open>response.json()\<close> give.
  \<open>FetchError\<close> is any exception of the two (caught at line 116), \<open>NoRoutes\<close> a body
  without a \<open>routes\<close> field.  A route is the part of \<open>data.routes[0]\<close> the program reads:
  \<open>geometry.coordinates\<close>, a list of \<open>[lng, lat]\<close> positions, and \<open>duration\<close>.
\<close>

record OSRMRoute =
  geometry_coordinates :: "(real \<times> real) list"
  data_duration :: real

datatype OSRMResponse = FetchError | NoRoutes | Routes "OSRMRoute list"

type_synonym url = "(real \<times> real) list"

definition fetchOSRMRoute ::
  "(url \<Rightarrow> OSRMResponse) \<Rightarrow> 'a LatLng_scheme \<Rightarrow> 'b LatLng_scheme \<Rightarrow> LatLng option \<Rightarrow> OSRMRoute option"
where
  "fetchOSRMRoute fetch start dest waypoint =
     (let url = [(lng start, lat start)];
          url = (case waypoint of Some w \<Rightarrow> url @ [(lng w, lat w)] | None \<Rightarrow> url);
          url = url @ [(lng dest, lat dest)]
      in case fetch url of
           FetchError \<Rightarrow> None
         | NoRoutes \<Rightarrow> None
         | Routes [] \<Rightarrow> None
         | Routes (r # _) \<Rightarrow> Some r)"

section \<open>getSafeRoute\<close>

text \<open>
  The narrative service is the second parameter.  Its request is the prompt, of which the
  model keeps the values the template is filled with; its reply is one of: the call
  rejects (\<open>AiRejected\<close>), the response has no text (\<open>NoText\<close>), the text is not JSON
  or is the JSON \<open>null\<close> (\<open>Unparsable\<close>: \<open>JSON.parse\<close> or the field access throws inside
  the inner \<open>try\<close>), the JSON has no \<open>safetyNote\<close> (\<open>NoSafetyNote\<close>), or it has the
  string \<open>s\<close> there (\<open>SafetyNote s\<close>).
\<close>

record Prompt =
  prompt_start :: LatLng
  prompt_destinationName :: string
  prompt_duration :: string
  prompt_isDetour :: bool
  prompt_dangerCount :: nat

datatype AiReply = AiRejected | NoText | Unparsable | NoSafetyNote | SafetyNote string

record Env =
  routing :: "url \<Rightarrow> OSRMResponse"
  narrative :: "Prompt \<Rightarrow> AiReply"

datatype error = NoRouteFound | TypeError | AiError

record 'a Candidate =
  coords :: "LatLng list"
  data :: OSRMRoute
  conflicts :: "'a Pin_scheme list"
  type :: string
  score :: real

definition toLatLng :: "real \<times> real \<Rightarrow> LatLng" where
  "toLatLng c = \<lparr>lat = snd c, lng = fst c\<rparr>"

text \<open>Lines 233 to 245: the direct route as the first candidate.\<close>

definition directCandidate ::
  "'a Pin_scheme list \<Rightarrow> LatLng \<Rightarrow> LatLng \<Rightarrow> OSRMRoute \<Rightarrow> 'a Candidate"
where
  "directCandidate pins start destinationLoc directRouteData =
     (let directCoordinates = map toLatLng (geometry_coordinates directRouteData);
          directConflicts = checkRouteConflicts directCoordinates pins start destinationLoc
      in \<lparr>coords = directCoordinates, data = directRouteData, conflicts = directConflicts,
          type = ''direct'',
          score = real (length directConflicts) * 1000000 + data_duration directRouteData\<rparr>)"

text \<open>Lines 272 to 280: the local function \<open>evaluate\<close>, with the variables it closes over.\<close>

definition evaluate ::
  "'a Pin_scheme list \<Rightarrow> LatLng \<Rightarrow> LatLng \<Rightarrow> OSRMRoute option \<Rightarrow> string \<Rightarrow> 'a Candidate option"
where
  "evaluate pins start destinationLoc data_opt ty =
     (case data_opt of
        None \<Rightarrow> None
      | Some d \<Rightarrow>
          let coords = map toLatLng (geometry_coordinates d);
              conflicts = checkRouteConflicts coords pins start destinationLoc;
              score = (real (length conflicts) * 1000000) + data_duration d
          in Some \<lparr>coords = coords, data = d, conflicts = conflicts, type = ty, score = score\<rparr>)"

text \<open>Lines 254 to 267: the waypoints of the detour search and the requests through them,
  in the order in which the promises are pushed.\<close>

definition offsets :: "int list" where
  "offsets = [300, 600, 1000, 1500]"

definition detourWaypoints :: "'a LatLng_scheme \<Rightarrow> real \<Rightarrow> (LatLng \<times> string) list" where
  "detourWaypoints conflictPin bearing =
     concat (map (\<lambda>offset.
       let leftWp = getDestinationPoint conflictPin (of_int offset) (bearing - 90);
           rightWp = getDestinationPoint conflictPin (of_int offset) (bearing + 90)
       in [(leftWp, ''left-'' @ showInt offset), (rightWp, ''right-'' @ showInt offset)])
       offsets)"

definition routePromises ::
  "(url \<Rightarrow> OSRMResponse) \<Rightarrow> LatLng \<Rightarrow> LatLng \<Rightarrow> 'a LatLng_scheme \<Rightarrow> real \<Rightarrow> (OSRMRoute option \<times> string) list"
where
  "routePromises fetch start destinationLoc conflictPin bearing =
     map (\<lambda>(wp, ty). (fetchOSRMRoute fetch start destinationLoc (Some wp), ty))
       (detourWaypoints conflictPin bearing)"

text \<open>Lines 282 to 289: the candidate list, the direct route first.\<close>

definition candidates ::
  "(url \<Rightarrow> OSRMResponse) \<Rightarrow> 'a Pin_scheme list \<Rightarrow> LatLng \<Rightarrow> LatLng \<Rightarrow> 'a Candidate \<Rightarrow> 'a Pin_scheme \<Rightarrow> 'a Candidate list"
where
  "candidates fetch pins start destinationLoc selectedRoute conflictPin =
     (let bearing = getBearing start destinationLoc;
          results = routePromises fetch start destinationLoc conflictPin bearing
      in selectedRoute #
         List.map_filter (\<lambda>(d, ty). evaluate pins start destinationLoc d ty) results)"

text \<open>
  Lines 226 to 296.  \<open>Array.prototype.sort\<close> is a stable sort, as \<open>sort_key\<close> is.
  \<open>candidates[0]\<close> of an empty array would be \<open>undefined\<close> and the next access a
  \<open>TypeError\<close>.
\<close>

definition selectRoute ::
  "(url \<Rightarrow> OSRMResponse) \<Rightarrow> LatLng \<Rightarrow> LatLng \<Rightarrow> 'a Pin_scheme list \<Rightarrow> error + 'a Candidate"
where
  "selectRoute fetch start destinationLoc pins =
     (case fetchOSRMRoute fetch start destinationLoc None of
        None \<Rightarrow> Inl NoRouteFound
      | Some directRouteData \<Rightarrow>
          let selectedRoute = directCandidate pins start destinationLoc directRouteData
          in (case conflicts selectedRoute of
                [] \<Rightarrow> Inr selectedRoute
              | conflictPin # _ \<Rightarrow>
                  (case sort_key score
                          (candidates fetch pins start destinationLoc selectedRoute conflictPin) of
                     [] \<Rightarrow> Inl TypeError
                   | winner # _ \<Rightarrow> Inr winner)))"

text \<open>Lines 329 to 340: the safety note.  An empty string is falsy.\<close>

definition safetyNoteOf :: "AiReply \<Rightarrow> nat \<Rightarrow> string" where
  "safetyNoteOf reply dangerCount =
     (let safetyNote = ''Stay aware of your surroundings.'';
          safetyNote = (case reply of
                          SafetyNote s \<Rightarrow> if s \<noteq> [] then s else safetyNote
                        | _ \<Rightarrow> safetyNote)
      in if dangerCount > 0 \<and> safetyNote = ''Stay aware of your surroundings.''
         then ''Warning: Safe path not possible. This route still passes near reported danger zones.''
         else safetyNote)"

text \<open>The body of the \<open>try\<close> block: \<open>Inl\<close> is an exception that reaches the \<open>catch\<close>.\<close>

definition getSafeRoute_try ::
  "Env \<Rightarrow> LatLng \<Rightarrow> LatLng \<Rightarrow> string \<Rightarrow> 'a Pin_scheme list \<Rightarrow> error + RouteResponse"
where
  "getSafeRoute_try env start destinationLoc destinationName pins =
     (case selectRoute (routing env) start destinationLoc pins of
        Inl e \<Rightarrow> Inl e
      | Inr selectedRoute \<Rightarrow>
          let duration = formatDuration (data_duration (data selectedRoute));
              dangerCount = length (conflicts selectedRoute);
              isDetour = (type selectedRoute \<noteq> ''direct'');
              prompt = \<lparr>prompt_start = start, prompt_destinationName = destinationName,
                        prompt_duration = duration, prompt_isDetour = isDetour,
                        prompt_dangerCount = dangerCount\<rparr>
          in (case narrative env prompt of
                AiRejected \<Rightarrow> Inl AiError
              | aiResponse \<Rightarrow>
                  Inr \<lparr>route = coords selectedRoute, duration = Some duration,
                       safetyNote = Some (safetyNoteOf aiResponse dangerCount)\<rparr>))"

definition getSafeRoute ::
  "Env \<Rightarrow> LatLng \<Rightarrow> LatLng \<Rightarrow> string \<Rightarrow> 'a Pin_scheme list \<Rightarrow> RouteResponse"
where
  "getSafeRoute env start destinationLoc destinationName pins =
     (case getSafeRoute_try env start destinationLoc destinationName pins of
        Inr response \<Rightarrow> response
      | Inl error \<Rightarrow>
          \<lparr>route = [], duration = None,
           safetyNote = Some ''Could not calculate safe route. Please check your internet connection.''\<rparr>)"

section \<open>The local-storage backend of pinService.ts\<close>

text \<open>
  \<open>USE_FIREBASE\<close> is false for the configuration of the file, so \<open>addPin\<close> and
  \<open>removePin\<close> run their \<open>else\<close> branches.  The browser is the state: the items of
  \<open>localStorage\<close> and the events dispatched on \<open>window\<close>.  An item is the pin array that
  \<open>JSON.stringify\<close> wrote (\<open>JSON.parse\<close> gives it back), or a text that \<open>JSON.parse\<close>
  rejects; the empty string, which is falsy, is of the second kind, since both read as
  the empty list.  The fresh identifier and the clock are arguments.
\<close>

datatype item = PinsJSON "Pin list" | NotJSON

record Browser =
  localStorage :: "string \<rightharpoonup> item"
  dispatched :: "string list"

definition STORAGE_KEY :: string where
  "STORAGE_KEY = ''safe_walk_pins_db''"

definition getLocalPinsSync :: "Browser \<Rightarrow> Pin list" where
  "getLocalPinsSync b =
     (case localStorage b STORAGE_KEY of
        None \<Rightarrow> []
      | Some NotJSON \<Rightarrow> []
      | Some (PinsJSON ps) \<Rightarrow> ps)"

definition addPin :: "string \<Rightarrow> real \<Rightarrow> Pin \<Rightarrow> Browser \<Rightarrow> Pin \<times> Browser" where
  "addPin randomId now pin b =
     (let newPin = pin\<lparr>pin_id := randomId, timestamp := now\<rparr>;
          currentPins = getLocalPinsSync b;
          updatedPins = currentPins @ [newPin]
      in (newPin,
          b\<lparr>localStorage := (localStorage b)(STORAGE_KEY \<mapsto> PinsJSON updatedPins),
            dispatched := dispatched b @ [''local-storage-update'']\<rparr>))"

definition removePin :: "string \<Rightarrow> Browser \<Rightarrow> Browser" where
  "removePin pinId b =
     (let currentPins = getLocalPinsSync b;
          updatedPins = filter (\<lambda>p. pin_id p \<noteq> pinId) currentPins
      in b\<lparr>localStorage := (localStorage b)(STORAGE_KEY \<mapsto> PinsJSON updatedPins),
           dispatched := dispatched b @ [''local-storage-update'']\<rparr>)"

section \<open>Notions used to state the properties of the selection\<close>

text \<open>The routes that are scored in one calculation: the direct route alone when it has
  no conflict, the candidate list of the detour search otherwise.\<close>

definition allCandidates ::
  "(url \<Rightarrow> OSRMResponse) \<Rightarrow> 'a Pin_scheme list \<Rightarrow> LatLng \<Rightarrow> LatLng \<Rightarrow> OSRMRoute \<Rightarrow> 'a Candidate list"
where
  "allCandidates fetch pins start dest r =
     (let selectedRoute = directCandidate pins start dest r
      in case conflicts selectedRoute of
           [] \<Rightarrow> [selectedRoute]
         | conflictPin # _ \<Rightarrow> candidates fetch pins start dest selectedRoute conflictPin)"

text \<open>A candidate is scored as the program scores it: its conflicts are those of its own
  path and its score is one million per conflict plus its duration in seconds.\<close>

definition scored :: "'a Pin_scheme list \<Rightarrow> LatLng \<Rightarrow> LatLng \<Rightarrow> 'a Candidate \<Rightarrow> bool" where
  "scored pins start dest c \<longleftrightarrow>
     conflicts c = checkRouteConflicts (coords c) pins start dest \<and>
     score c = real (length (conflicts c)) * 1000000 + data_duration (data c)"

text \<open>The provenance tags of the eight detour requests, in the order of the requests.\<close>

definition labels :: "string list" where
  "labels = [''left-300'', ''right-300'', ''left-600'', ''right-600'',
             ''left-1000'', ''right-1000'', ''left-1500'', ''right-1500'']"

section \<open>A scenario on the equator\<close>

text \<open>
  The end-to-end scenario of the specification: a walk of about 1.1 km east along the
  equator with one danger report on the midpoint.  The direct route passes through the
  report; the detour passes about 330 m north of it.  The provider answers the request
  without a waypoint with the direct route and every request with a waypoint with the
  response given as the argument.
\<close>

definition scenario_start :: LatLng where
  "scenario_start = \<lparr>lat = 0, lng = 0\<rparr>"

definition scenario_dest :: LatLng where
  "scenario_dest = \<lparr>lat = 0, lng = 0.01\<rparr>"

definition scenario_pin :: Pin where
  "scenario_pin = \<lparr>lat = 0, lng = 0.005, pin_id = ''p1'', safetyLevel = DANGER,
     description = ''dark'', timestamp = 0, userId = ''user''\<rparr>"

definition scenario_direct :: OSRMRoute where
  "scenario_direct = \<lparr>geometry_coordinates = [(0, 0), (0.005, 0), (0.01, 0)], data_duration = 300\<rparr>"

definition scenario_detour :: "real \<Rightarrow> OSRMRoute" where
  "scenario_detour seconds =
     \<lparr>geometry_coordinates = [(0, 0), (0.005, 0.003), (0.01, 0)], data_duration = seconds\<rparr>"

definition scenario_fetch :: "OSRMResponse \<Rightarrow> url \<Rightarrow> OSRMResponse" where
  "scenario_fetch detour u = (if length u = 2 then Routes [scenario_direct] else detour)"

text \<open>A browser whose storage holds four pins, two of them with the identifier \<open>a\<close>,
  and an item of another key.\<close>

definition stored_pins :: "Pin list" where
  "stored_pins =
     [scenario_pin\<lparr>pin_id := ''a''\<rparr>, scenario_pin\<lparr>pin_id := ''b'', safetyLevel := SAFE\<rparr>,
      scenario_pin\<lparr>pin_id := ''a'', lat := 1\<rparr>, scenario_pin\<lparr>pin_id := ''c''\<rparr>]"

definition browser0 :: Browser where
  "browser0 = \<lparr>localStorage = [STORAGE_KEY \<mapsto> PinsJSON stored_pins, ''theme'' \<mapsto> NotJSON],
               dispatched = []\<rparr>"

section \<open>Geodesic helpers\<close>

subsection \<open>atan2 and the remainder\<close>


lemma atan2_zero: "0 < x \<Longrightarrow> atan2 0 x = 0"
  by (simp add: atan2_def)

lemma sin_sq_half: "sin (x / 2) * sin (x / 2) = (1 - cos x) / 2" for x :: real
proof -
  have "cos (2 * (x / 2)) = 1 - 2 * (sin (x / 2))\<^sup>2" by (rule cos_double_sin)
  moreover have "2 * (x / 2) = x" by simp
  ultimately have "cos x = 1 - 2 * (sin (x / 2))\<^sup>2" by (simp only:)
  then show ?thesis by (simp add: power2_eq_square)
qed

lemma haversine_convex:
  "haversine phi1 phi2 dlam =
     (1 - (sin (dlam / 2))\<^sup>2) * ((1 - cos (phi2 - phi1)) / 2) +
     (sin (dlam / 2))\<^sup>2 * ((1 + cos (phi1 + phi2)) / 2)"
proof -
  have p: "cos phi1 * cos phi2 = (cos (phi2 - phi1) + cos (phi1 + phi2)) / 2"
    by (simp add: cos_add cos_diff)
  show ?thesis unfolding haversine_def sin_sq_half [of "phi2 - phi1"]
    by (simp add: p power2_eq_square algebra_simps add_divide_distrib diff_divide_distrib)
qed

lemma haversine_range: "0 \<le> haversine phi1 phi2 dlam \<and> haversine phi1 phi2 dlam \<le> 1"
proof -
  define s where "s = (sin (dlam / 2))\<^sup>2"
  define u where "u = (1 - cos (phi2 - phi1)) / 2"
  define v where "v = (1 + cos (phi1 + phi2)) / 2"
  have s: "0 \<le> s" "s \<le> 1" unfolding s_def by (simp_all add: abs_square_le_1)
  have u: "0 \<le> u" "u \<le> 1" unfolding u_def
    using cos_ge_minus_one [of "phi2 - phi1"] cos_le_one [of "phi2 - phi1"] by simp_all
  have "0 \<le> 1 + cos (phi1 + phi2)" using cos_ge_minus_one [of "phi1 + phi2"] by linarith
  then have v: "0 \<le> v" "v \<le> 1" unfolding v_def
    using cos_le_one [of "phi1 + phi2"] by simp_all
  have e: "haversine phi1 phi2 dlam = (1 - s) * u + s * v"
    unfolding s_def u_def v_def by (rule haversine_convex)
  have lo: "0 \<le> (1 - s) * u + s * v" using s u v by simp
  have "(1 - s) * u \<le> (1 - s) * 1" using s u by (intro mult_left_mono) simp_all
  moreover have "s * v \<le> s * 1" using s v by (intro mult_left_mono) simp_all
  ultimately have hi: "(1 - s) * u + s * v \<le> 1" by simp
  show ?thesis using lo hi e by simp
qed

lemma getDistanceMeters_haversine:
  "getDistanceMeters p1 p2 =
     6371000 * (2 * atan2 (sqrt (haversine (lat p1 * pi / 180) (lat p2 * pi / 180) ((lng p2 - lng p1) * pi / 180)))
                          (sqrt (1 - haversine (lat p1 * pi / 180) (lat p2 * pi / 180) ((lng p2 - lng p1) * pi / 180))))"
  by (simp add: getDistanceMeters_def haversine_def Let_def algebra_simps diff_divide_distrib)

lemma getDistanceMeters_same_place:
  "lat p1 = lat p2 \<Longrightarrow> lng p1 = lng p2 \<Longrightarrow> getDistanceMeters p1 p2 = 0"
  unfolding getDistanceMeters_haversine by (simp add: haversine_def atan2_zero)



text \<open>Along a meridian and along the equator the distance is the length of the arc.\<close>

lemma atan2_sin_cos:
  assumes "0 \<le> x" "x < pi / 2"
  shows "atan2 (sqrt (sin x * sin x)) (sqrt (1 - sin x * sin x)) = x"
proof -
  have c: "0 < cos x" using assms by (intro cos_gt_zero_pi) linarith+
  have s: "0 \<le> sin x" using assms pi_gt_zero by (intro sin_ge_zero) linarith+
  have "1 - sin x * sin x = cos x * cos x"
    using sin_cos_squared_add3 [of x] by linarith
  then have r: "sqrt (1 - sin x * sin x) = cos x" using c by simp
  have l: "sqrt (sin x * sin x) = sin x" using s by simp
  have "arctan (sin x / cos x) = x"
    using arctan_tan [of x] assms by (simp add: tan_def)
  then show ?thesis unfolding l r using c by (simp add: atan2_def)
qed

lemma sin_abs_sq: "sin (\<bar>x\<bar>) * sin (\<bar>x\<bar>) = sin x * sin x" for x :: real
  by (cases "0 \<le> x") simp_all

lemma haversine_half_angle:
  assumes "haversine phi1 phi2 dlam = sin y * sin y" "\<bar>y\<bar> < pi / 2"
  shows "atan2 (sqrt (haversine phi1 phi2 dlam)) (sqrt (1 - haversine phi1 phi2 dlam)) = \<bar>y\<bar>"
proof -
  have "haversine phi1 phi2 dlam = sin \<bar>y\<bar> * sin \<bar>y\<bar>"
    unfolding assms(1) by (rule sin_abs_sq [symmetric])
  then show ?thesis using atan2_sin_cos [of "\<bar>y\<bar>"] assms(2) by simp
qed

lemma getDistanceMeters_meridian:
  assumes "lng p1 = lng p2" "\<bar>lat p2 - lat p1\<bar> < 180"
  shows "getDistanceMeters p1 p2 = 6371000 * (\<bar>lat p2 - lat p1\<bar> * pi / 180)"
proof -
  define y where "y = (lat p2 - lat p1) * pi / 360"
  have e1: "(lat p2 * pi / 180 - lat p1 * pi / 180) / 2 = y" unfolding y_def by argo
  have e2: "(lng p2 - lng p1) * pi / 180 / 2 = 0" using assms(1) by simp
  have h: "haversine (lat p1 * pi / 180) (lat p2 * pi / 180) ((lng p2 - lng p1) * pi / 180)
      = sin y * sin y"
    unfolding haversine_def e1 e2 by simp
  have a: "\<bar>y\<bar> = \<bar>lat p2 - lat p1\<bar> * pi / 360" unfolding y_def by (simp add: abs_mult)
  have "\<bar>lat p2 - lat p1\<bar> * pi < 180 * pi" using assms(2) by simp
  then have b: "\<bar>y\<bar> < pi / 2" unfolding a by simp
  show ?thesis unfolding getDistanceMeters_haversine haversine_half_angle [OF h b] a by simp
qed

lemma getDistanceMeters_equator:
  assumes "lat p1 = 0" "lat p2 = 0" "\<bar>lng p2 - lng p1\<bar> < 180"
  shows "getDistanceMeters p1 p2 = 6371000 * (\<bar>lng p2 - lng p1\<bar> * pi / 180)"
proof -
  define y where "y = (lng p2 - lng p1) * pi / 360"
  have e2: "(lng p2 - lng p1) * pi / 180 / 2 = y" unfolding y_def by simp
  have h: "haversine (lat p1 * pi / 180) (lat p2 * pi / 180) ((lng p2 - lng p1) * pi / 180)
      = sin y * sin y"
    unfolding haversine_def e2 assms(1,2) by simp
  have a: "\<bar>y\<bar> = \<bar>lng p2 - lng p1\<bar> * pi / 360" unfolding y_def by (simp add: abs_mult)
  have "\<bar>lng p2 - lng p1\<bar> * pi < 180 * pi" using assms(3) by simp
  then have b: "\<bar>y\<bar> < pi / 2" unfolding a by simp
  show ?thesis unfolding getDistanceMeters_haversine haversine_half_angle [OF h b] a by simp
qed

lemma arc_far: "3 / 1000 \<le> d \<Longrightarrow> 150 < 6371000 * (d * pi / 180)"
proof -
  assume d: "3 / 1000 \<le> d"
  define t where "t = d * pi"
  have "3 / 1000 * 2 \<le> d * pi" using d pi_ge_two by (intro mult_mono) simp_all
  then have "6 / 1000 \<le> t" unfolding t_def by simp
  then have "150 < 6371000 * (t / 180)" by simp
  then show ?thesis unfolding t_def by simp
qed

lemma far_apart:
  assumes "(lng p = lng q \<and> 3 / 1000 \<le> \<bar>lat q - lat p\<bar> \<and> \<bar>lat q - lat p\<bar> < 180)
         \<or> (lat p = 0 \<and> lat q = 0 \<and> 3 / 1000 \<le> \<bar>lng q - lng p\<bar> \<and> \<bar>lng q - lng p\<bar> < 180)"
  shows "150 < getDistanceMeters p q"
  using assms getDistanceMeters_meridian [of p q] getDistanceMeters_equator [of p q]
    arc_far [of "\<bar>lat q - lat p\<bar>"] arc_far [of "\<bar>lng q - lng p\<bar>"]
  by auto

lemma far_not_near:
  "(lng p = lng q \<and> 3 / 1000 \<le> \<bar>lat q - lat p\<bar> \<and> \<bar>lat q - lat p\<bar> < 180)
         \<or> (lat p = 0 \<and> lat q = 0 \<and> 3 / 1000 \<le> \<bar>lng q - lng p\<bar> \<and> \<bar>lng q - lng p\<bar> < 180)
   \<Longrightarrow> (getDistanceMeters p q < 150) = False"
  using far_apart [of p q] by simp

lemma far_beyond_terminal:
  "(lng p = lng q \<and> 3 / 1000 \<le> \<bar>lat q - lat p\<bar> \<and> \<bar>lat q - lat p\<bar> < 180)
         \<or> (lat p = 0 \<and> lat q = 0 \<and> 3 / 1000 \<le> \<bar>lng q - lng p\<bar> \<and> \<bar>lng q - lng p\<bar> < 180)
   \<Longrightarrow> (80 < getDistanceMeters p q) = True"
  using far_apart [of p q] by simp

lemma same_place_near:
  "lat p = lat q \<and> lng p = lng q \<Longrightarrow> (getDistanceMeters p q < 150) = True"
  using getDistanceMeters_same_place [of p q] by simp

lemmas scenario_defs = scenario_start_def scenario_dest_def scenario_pin_def
  scenario_direct_def scenario_detour_def toLatLng_def

lemma scenario_direct_conflicts:
  "checkRouteConflicts (map toLatLng (geometry_coordinates scenario_direct)) [scenario_pin]
     scenario_start scenario_dest = [scenario_pin]"
  unfolding checkRouteConflicts_def Let_def
  by (simp add: scenario_defs far_not_near far_beyond_terminal same_place_near set_add_def)

lemma scenario_detour_conflicts:
  "checkRouteConflicts (map toLatLng (geometry_coordinates (scenario_detour seconds))) [scenario_pin]
     scenario_start scenario_dest = []"
  unfolding checkRouteConflicts_def Let_def
  by (simp add: scenario_defs far_not_near far_beyond_terminal same_place_near set_add_def)

subsection \<open>The forward projection\<close>












section \<open>Duration formatting\<close>

lemma pow2_pos: "0 < pow2 k"
  by (simp add: pow2_def)

lemma round_even_nonneg: "0 \<le> q \<Longrightarrow> 0 \<le> round_even q"
  by (auto simp: round_even_def Let_def)


lemma fl_nonneg:
  assumes "0 \<le> x"
  shows "fl x = PlusInfinity \<or> (\<exists>y. fl x = Fin y \<and> 0 \<le> y)"
proof (cases "x = 0")
  case True
  then show ?thesis by (simp add: fl_def)
next
  case False
  define u where "u = pow2 (max (exponent x - 52) (- 1074))"
  have u: "0 < u" unfolding u_def by (rule pow2_pos)
  then have "0 \<le> x / u" using assms by simp
  then have "0 \<le> round_even (x / u)" by (rule round_even_nonneg)
  then have y: "0 \<le> of_int (round_even (x / u)) * u" using u by simp
  have "- pow2 1024 < 0" using pow2_pos [of 1024] by simp
  then have "\<not> of_int (round_even (x / u)) * u \<le> - pow2 1024" using y by linarith
  then show ?thesis using False y unfolding fl_def Let_def u_def [symmetric] by auto
qed

lemma fl_over_nonneg:
  assumes "0 \<le> a" "0 < c"
  shows "js_over (Fin a) c = PlusInfinity \<or> (\<exists>q. js_over (Fin a) c = Fin q \<and> 0 \<le> q)"
  using fl_nonneg [of "a / c"] assms by (simp add: js_over_def)







lemmas fl_eval = fl_def exponent_def ilog2.simps pow2_def round_even_def Let_def d12_def
lemmas show_eval = numberToString_def showDouble_def showNat.simps digit_char_def
lemmas fd_eval = formatDuration_def formatDuration_number_def js_times_def js_over_def js_ceil_def js_floor_def js_less_def
  js_mod_def to_number_def










section \<open>Conflict detection\<close>

lemma set_add_set: "set (set_add x xs) = insert x (set xs)"
  by (auto simp: set_add_def)

lemma set_add_distinct: "distinct xs \<Longrightarrow> distinct (set_add x xs)"
  by (simp add: set_add_def)

lemma foldl_add_set:
  "set (foldl (\<lambda>acc x. if P x then (if Q x then set_add x acc else acc) else acc) acc xs) =
     set acc \<union> {x \<in> set xs. P x \<and> Q x}"
  by (induction xs arbitrary: acc) (auto simp: set_add_set)

lemma foldl_add_distinct:
  "distinct acc \<Longrightarrow>
   distinct (foldl (\<lambda>acc x. if P x then (if Q x then set_add x acc else acc) else acc) acc xs)"
  by (induction xs arbitrary: acc) (simp_all add: set_add_distinct)

lemma foldl_foldl_add_set:
  "set (foldl (\<lambda>acc pt. foldl (\<lambda>acc x. if P pt x then (if Q x then set_add x acc else acc) else acc) acc ps) acc pts) =
     set acc \<union> {x \<in> set ps. (\<exists>pt \<in> set pts. P pt x) \<and> Q x}"
  by (induction pts arbitrary: acc) (auto simp: foldl_add_set)

lemma foldl_foldl_add_distinct:
  "distinct acc \<Longrightarrow>
   distinct (foldl (\<lambda>acc pt. foldl (\<lambda>acc x. if P pt x then (if Q x then set_add x acc else acc) else acc) acc ps) acc pts)"
  by (induction pts arbitrary: acc) (simp_all add: foldl_add_distinct)

lemma Collect_one_of_three:
  "P a \<Longrightarrow> \<not> P b \<Longrightarrow> \<not> P c \<Longrightarrow> {p \<in> set [a, b, c]. P p} = {a}"
  by auto

lemma distinct_singleton: "distinct xs \<Longrightarrow> set xs = {a} \<Longrightarrow> xs = [a]"
proof (cases xs)
  case Nil
  assume "set xs = {a}" then show ?thesis using Nil by simp
next
  case (Cons y ys)
  assume d: "distinct xs" and s: "set xs = {a}"
  have y: "y = a" using s Cons by auto
  have "set ys \<subseteq> {a}" using s Cons by auto
  moreover have "a \<notin> set ys" using d Cons y by simp
  ultimately have "ys = []" by (cases ys) auto
  then show ?thesis using Cons y by simp
qed

text \<open>
  Claim C2.  \<open>checkRouteConflicts\<close> returns, without repetition, exactly the pins of
  severity DANGER for which some point of the path is less than 150 metres from the pin
  and the pin is more than 80 metres from the start and more than 80 metres from the
  end; no pin of severity SAFE or CAUTION is in the result.
\<close>

theorem checkRouteConflicts_exact:
  "set (checkRouteConflicts routePath pins startLoc endLoc) =
     {p \<in> set pins. safetyLevel p = DANGER
        \<and> (\<exists>point \<in> set routePath. getDistanceMeters point p < 150)
        \<and> getDistanceMeters p startLoc > 80 \<and> getDistanceMeters p endLoc > 80}
   \<and> distinct (checkRouteConflicts routePath pins startLoc endLoc)
   \<and> SAFE \<notin> safetyLevel ` set (checkRouteConflicts routePath pins startLoc endLoc)
   \<and> CAUTION \<notin> safetyLevel ` set (checkRouteConflicts routePath pins startLoc endLoc)"
proof -
  have s: "set (checkRouteConflicts routePath pins startLoc endLoc) =
     {p \<in> set pins. safetyLevel p = DANGER
        \<and> (\<exists>point \<in> set routePath. getDistanceMeters point p < 150)
        \<and> getDistanceMeters p startLoc > 80 \<and> getDistanceMeters p endLoc > 80}"
    unfolding checkRouteConflicts_def Let_def
    by (subst foldl_foldl_add_set) auto
  have d: "distinct (checkRouteConflicts routePath pins startLoc endLoc)"
    unfolding checkRouteConflicts_def Let_def
    by (rule foldl_foldl_add_distinct) simp
  show ?thesis unfolding s using d by auto
qed

theorem checkRouteConflicts_exact_witness:
  "checkRouteConflicts (map toLatLng (geometry_coordinates scenario_direct))
     [scenario_pin, scenario_pin\<lparr>safetyLevel := CAUTION\<rparr>, scenario_pin\<lparr>lng := 0.0001\<rparr>]
     scenario_start scenario_dest = [scenario_pin]"
proof -
  let ?path = "map toLatLng (geometry_coordinates scenario_direct)"
  let ?pins = "[scenario_pin, scenario_pin\<lparr>safetyLevel := CAUTION\<rparr>, scenario_pin\<lparr>lng := 0.0001\<rparr>]"
  let ?r = "checkRouteConflicts ?path ?pins scenario_start scenario_dest"
  let ?P = "\<lambda>p :: Pin. safetyLevel p = DANGER
        \<and> (\<exists>point \<in> set ?path. getDistanceMeters point p < 150)
        \<and> getDistanceMeters p scenario_start > 80 \<and> getDistanceMeters p scenario_dest > 80"
  have "getDistanceMeters (scenario_pin\<lparr>lng := 0.0001\<rparr>) scenario_start
          = 6371000 * (0.0001 * pi / 180)"
    by (subst getDistanceMeters_equator) (simp_all add: scenario_defs)
  moreover have "0.0001 * pi \<le> 0.0001 * 4" using pi_less_4 by simp
  ultimately have near: "\<not> getDistanceMeters (scenario_pin\<lparr>lng := 0.0001\<rparr>) scenario_start > 80"
    by simp
  have a: "?P scenario_pin"
    by (simp add: scenario_defs far_beyond_terminal same_place_near)
  have b: "\<not> ?P (scenario_pin\<lparr>safetyLevel := CAUTION\<rparr>)" by simp
  have c: "\<not> ?P (scenario_pin\<lparr>lng := 0.0001\<rparr>)" using near by blast
  have "{p \<in> set ?pins. ?P p} = {scenario_pin}"
    using a b c by (rule Collect_one_of_three)
  then have "set ?r = {scenario_pin}" and "distinct ?r"
    using checkRouteConflicts_exact [of ?path ?pins scenario_start scenario_dest]
    by (simp_all only:)
  then show ?thesis by (intro distinct_singleton)
qed

section \<open>Selection of the route\<close>

lemma hd_insort_key:
  "hd (insort_key f x ys) = (if ys = [] \<or> f x \<le> f (hd ys) then x else hd ys)"
  by (cases ys) simp_all

lemma sort_key_Nil_iff: "sort_key f xs = [] \<longleftrightarrow> xs = []"
  by (metis length_sort length_0_conv)

lemma hd_sort_key_Cons:
  "hd (sort_key f (x # xs)) =
     (if xs = [] \<or> f x \<le> f (hd (sort_key f xs)) then x else hd (sort_key f xs))"
  by (simp add: hd_insort_key sort_key_Nil_iff)

lemma hd_sort_key_first_min:
  "xs \<noteq> [] \<Longrightarrow>
   \<exists>i < length xs. hd (sort_key f xs) = xs ! i
      \<and> (\<forall>j < length xs. f (xs ! i) \<le> f (xs ! j))
      \<and> (\<forall>j < i. f (xs ! i) < f (xs ! j))"
proof (induction xs)
  case Nil
  then show ?case by simp
next
  case (Cons x xs)
  show ?case
  proof (cases "xs = []")
    case True
    then show ?thesis by simp
  next
    case False
    from Cons.IH [OF False] obtain i where i: "i < length xs"
      and h: "hd (sort_key f xs) = xs ! i"
      and lo: "\<forall>j < length xs. f (xs ! i) \<le> f (xs ! j)"
      and st: "\<forall>j < i. f (xs ! i) < f (xs ! j)" by blast
    show ?thesis
    proof (cases "f x \<le> f (xs ! i)")
      case True
      have "hd (sort_key f (x # xs)) = (x # xs) ! 0"
        using True h by (simp add: hd_sort_key_Cons del: sort_key_simps)
      moreover have "\<forall>j < length (x # xs). f ((x # xs) ! 0) \<le> f ((x # xs) ! j)"
      proof (intro allI impI)
        fix j assume "j < length (x # xs)"
        then show "f ((x # xs) ! 0) \<le> f ((x # xs) ! j)"
          using True lo by (cases j) (auto intro: order_trans)
      qed
      ultimately show ?thesis by (intro exI [of _ 0]) simp
    next
      case gt: False
      have "hd (sort_key f (x # xs)) = (x # xs) ! Suc i"
        using gt h False by (simp add: hd_sort_key_Cons del: sort_key_simps)
      moreover have "\<forall>j < length (x # xs). f ((x # xs) ! Suc i) \<le> f ((x # xs) ! j)"
      proof (intro allI impI)
        fix j assume "j < length (x # xs)"
        then show "f ((x # xs) ! Suc i) \<le> f ((x # xs) ! j)"
          using gt lo by (cases j) auto
      qed
      moreover have "\<forall>j < Suc i. f ((x # xs) ! Suc i) < f ((x # xs) ! j)"
      proof (intro allI impI)
        fix j assume "j < Suc i"
        then show "f ((x # xs) ! Suc i) < f ((x # xs) ! j)"
          using gt st by (cases j) auto
      qed
      ultimately show ?thesis using i by (intro exI [of _ "Suc i"]) simp
    qed
  qed
qed

lemma detourWaypoints_eq:
  "detourWaypoints p b =
     [(getDestinationPoint p 300 (b - 90), ''left-300''),
      (getDestinationPoint p 300 (b + 90), ''right-300''),
      (getDestinationPoint p 600 (b - 90), ''left-600''),
      (getDestinationPoint p 600 (b + 90), ''right-600''),
      (getDestinationPoint p 1000 (b - 90), ''left-1000''),
      (getDestinationPoint p 1000 (b + 90), ''right-1000''),
      (getDestinationPoint p 1500 (b - 90), ''left-1500''),
      (getDestinationPoint p 1500 (b + 90), ''right-1500'')]"
  by (simp add: detourWaypoints_def offsets_def Let_def showInt_def showNat.simps digit_char_def)

lemma map_filter_of_map: "List.map_filter f (map g xs) = List.map_filter (\<lambda>x. f (g x)) xs"
  by (induction xs) (simp_all add: map_filter_simps split: option.splits)

lemma set_map_filter_iff: "c \<in> set (List.map_filter f xs) \<longleftrightarrow> (\<exists>x \<in> set xs. f x = Some c)"
  by (induction xs) (auto simp: map_filter_simps split: option.splits)

lemma candidates_eq:
  "candidates fetch pins start dest sel p =
     sel # List.map_filter
             (\<lambda>(wp, ty). evaluate pins start dest (fetchOSRMRoute fetch start dest (Some wp)) ty)
             (detourWaypoints p (getBearing start dest))"
  by (simp add: candidates_def routePromises_def Let_def map_filter_of_map case_prod_unfold)

lemma candidates_nonempty: "candidates fetch pins start dest sel p \<noteq> []"
  by (simp add: candidates_eq)

lemma selectRoute_no_route:
  "fetchOSRMRoute fetch start dest None = None \<Longrightarrow>
   selectRoute fetch start dest pins = Inl NoRouteFound"
  by (simp add: selectRoute_def)

lemma selectRoute_clear:
  "fetchOSRMRoute fetch start dest None = Some r \<Longrightarrow>
   conflicts (directCandidate pins start dest r) = [] \<Longrightarrow>
   selectRoute fetch start dest pins = Inr (directCandidate pins start dest r)"
  by (simp add: selectRoute_def)

lemma selectRoute_detour:
  assumes "fetchOSRMRoute fetch start dest None = Some r"
    and "conflicts (directCandidate pins start dest r) = p # ps"
  shows "selectRoute fetch start dest pins =
     Inr (hd (sort_key score (candidates fetch pins start dest (directCandidate pins start dest r) p)))"
proof -
  let ?cs = "candidates fetch pins start dest (directCandidate pins start dest r) p"
  have "sort_key score ?cs \<noteq> []"
    using candidates_nonempty [of fetch pins start dest "directCandidate pins start dest r" p]
    by (simp add: sort_key_Nil_iff)
  then obtain w ws where "sort_key score ?cs = w # ws" by (cases "sort_key score ?cs") auto
  then show ?thesis using assms by (simp add: selectRoute_def)
qed

lemma directCandidate_fields:
  "coords (directCandidate pins start dest r) = map toLatLng (geometry_coordinates r)"
  "data (directCandidate pins start dest r) = r"
  "conflicts (directCandidate pins start dest r) =
     checkRouteConflicts (map toLatLng (geometry_coordinates r)) pins start dest"
  "type (directCandidate pins start dest r) = ''direct''"
  "score (directCandidate pins start dest r) =
     real (length (checkRouteConflicts (map toLatLng (geometry_coordinates r)) pins start dest)) * 1000000
       + data_duration r"
  by (simp_all add: directCandidate_def Let_def)

lemma directCandidate_scored: "scored pins start dest (directCandidate pins start dest r)"
  by (simp add: scored_def directCandidate_fields)

lemma evaluate_scored: "evaluate pins start dest d ty = Some c \<Longrightarrow> scored pins start dest c"
  by (auto simp: evaluate_def scored_def Let_def split: option.splits)

lemma candidates_scored:
  assumes "c \<in> set (candidates fetch pins start dest (directCandidate pins start dest r) p)"
  shows "scored pins start dest c"
proof -
  from assms consider "c = directCandidate pins start dest r"
    | wp ty where "evaluate pins start dest (fetchOSRMRoute fetch start dest (Some wp)) ty = Some c"
    by (auto simp: candidates_eq set_map_filter_iff)
  then show ?thesis
    by cases (auto intro: directCandidate_scored evaluate_scored)
qed

lemma map_snd_detourWaypoints: "map snd (detourWaypoints p b) = labels"
  by (simp add: detourWaypoints_eq labels_def)

lemma scenario_fetch_direct:
  "fetchOSRMRoute (scenario_fetch x) scenario_start scenario_dest None = Some scenario_direct"
  by (simp add: fetchOSRMRoute_def scenario_fetch_def)

lemma scenario_fetch_waypoint:
  "fetchOSRMRoute (scenario_fetch x) scenario_start scenario_dest (Some wp) =
     (case x of FetchError \<Rightarrow> None | NoRoutes \<Rightarrow> None | Routes [] \<Rightarrow> None | Routes (r # _) \<Rightarrow> Some r)"
  by (simp add: fetchOSRMRoute_def scenario_fetch_def)

lemma scenario_directCandidate:
  "directCandidate [scenario_pin] scenario_start scenario_dest scenario_direct =
     \<lparr>coords = map toLatLng (geometry_coordinates scenario_direct), data = scenario_direct,
      conflicts = [scenario_pin], type = ''direct'', score = 1000300\<rparr>"
  by (simp add: directCandidate_def Let_def scenario_direct_conflicts)
     (simp add: scenario_direct_def)

lemma map_filter_all_Some: "List.map_filter (\<lambda>x. Some (g x)) xs = map g xs"
  by (induction xs) (simp_all add: map_filter_simps)


lemma scenario_candidates_routes:
  assumes "checkRouteConflicts (map toLatLng (geometry_coordinates x)) [scenario_pin]
             scenario_start scenario_dest = k"
  shows "candidates (scenario_fetch (Routes [x])) [scenario_pin] scenario_start scenario_dest sel p =
     sel # map (\<lambda>ty. \<lparr>coords = map toLatLng (geometry_coordinates x), data = x, conflicts = k,
                        type = ty, score = real (length k) * 1000000 + data_duration x\<rparr>) labels"
proof -
  have "candidates (scenario_fetch (Routes [x])) [scenario_pin] scenario_start scenario_dest sel p =
     sel # map (\<lambda>(wp, ty). \<lparr>coords = map toLatLng (geometry_coordinates x), data = x, conflicts = k,
                        type = ty, score = real (length k) * 1000000 + data_duration x\<rparr>)
             (detourWaypoints p (getBearing scenario_start scenario_dest))"
    unfolding candidates_eq scenario_fetch_waypoint
    by (simp add: evaluate_def Let_def assms case_prod_unfold map_filter_all_Some)
  also have "\<dots> = sel # map (\<lambda>ty. \<lparr>coords = map toLatLng (geometry_coordinates x), data = x, conflicts = k,
                        type = ty, score = real (length k) * 1000000 + data_duration x\<rparr>)
             (map snd (detourWaypoints p (getBearing scenario_start scenario_dest)))"
    by (simp add: case_prod_unfold comp_def)
  finally show ?thesis by (simp only: map_snd_detourWaypoints)
qed

lemma scenario_select:
  "selectRoute (scenario_fetch x) scenario_start scenario_dest [scenario_pin] =
     Inr (hd (sort_key score
       (candidates (scenario_fetch x) [scenario_pin] scenario_start scenario_dest
          (directCandidate [scenario_pin] scenario_start scenario_dest scenario_direct) scenario_pin)))"
  by (rule selectRoute_detour [OF scenario_fetch_direct]) (simp add: scenario_directCandidate)

lemma scenario_select_detour_1200:
  "selectRoute (scenario_fetch (Routes [scenario_detour 1200])) scenario_start scenario_dest [scenario_pin] =
     Inr \<lparr>coords = map toLatLng (geometry_coordinates (scenario_detour 1200)),
          data = scenario_detour 1200, conflicts = [], type = ''left-300'', score = 1200\<rparr>"
  unfolding scenario_select scenario_candidates_routes [OF scenario_detour_conflicts]
  by (simp add: labels_def scenario_directCandidate scenario_detour_def)

lemma scenario_select_detour_slow:
  "selectRoute (scenario_fetch (Routes [scenario_detour 2000000])) scenario_start scenario_dest [scenario_pin] =
     Inr (directCandidate [scenario_pin] scenario_start scenario_dest scenario_direct)"
  unfolding scenario_select scenario_candidates_routes [OF scenario_detour_conflicts]
  by (simp add: labels_def scenario_directCandidate scenario_detour_def)

lemma allCandidates_scored:
  "c \<in> set (allCandidates fetch pins start dest r) \<Longrightarrow> scored pins start dest c"
  by (auto simp: allCandidates_def Let_def directCandidate_scored candidates_scored split: list.splits)

lemma hd_sort_key_min:
  assumes "xs \<noteq> []"
  shows "hd (sort_key f xs) \<in> set xs \<and> (\<forall>x \<in> set xs. f (hd (sort_key f xs)) \<le> f x)"
proof -
  from hd_sort_key_first_min [OF assms, of f] obtain i where i: "i < length xs"
    and h: "hd (sort_key f xs) = xs ! i" and lo: "\<forall>j < length xs. f (xs ! i) \<le> f (xs ! j)"
    by blast
  have "\<forall>x \<in> set xs. f (xs ! i) \<le> f x" using lo by (auto simp: in_set_conv_nth)
  then show ?thesis using i h by simp
qed

lemma selectRoute_min:
  assumes "fetchOSRMRoute fetch start dest None = Some r"
  shows "\<exists>winner. selectRoute fetch start dest pins = Inr winner
     \<and> winner \<in> set (allCandidates fetch pins start dest r)
     \<and> (\<forall>c \<in> set (allCandidates fetch pins start dest r). score winner \<le> score c)"
proof (cases "conflicts (directCandidate pins start dest r)")
  case Nil
  then show ?thesis using selectRoute_clear [OF assms Nil] by (simp add: allCandidates_def)
next
  case (Cons p ps)
  let ?cs = "candidates fetch pins start dest (directCandidate pins start dest r) p"
  have a: "allCandidates fetch pins start dest r = ?cs" using Cons by (simp add: allCandidates_def)
  show ?thesis unfolding a selectRoute_detour [OF assms Cons]
    using hd_sort_key_min [OF candidates_nonempty, of score fetch pins start dest "directCandidate pins start dest r" p]
    by blast
qed

lemma zero_conflict_wins:
  assumes w: "scored pins start dest winner" and le: "score winner \<le> score alt"
    and alt: "scored pins start dest alt" "conflicts alt = []" "data_duration (data alt) < 1000000"
    and nonneg: "0 \<le> data_duration (data winner)"
  shows "conflicts winner = []"
proof (rule ccontr)
  assume "conflicts winner \<noteq> []"
  then have "1 \<le> length (conflicts winner)" by (cases "conflicts winner") simp_all
  then have "(1::real) \<le> real (length (conflicts winner))" by simp
  then have "1000000 \<le> real (length (conflicts winner)) * 1000000" by simp
  then have "1000000 \<le> score winner" using w nonneg by (simp add: scored_def)
  moreover have "score alt < 1000000" using alt by (simp add: scored_def)
  ultimately show False using le by simp
qed

lemma scenario_allCandidates:
  assumes "checkRouteConflicts (map toLatLng (geometry_coordinates x)) [scenario_pin]
             scenario_start scenario_dest = k"
  shows "allCandidates (scenario_fetch (Routes [x])) [scenario_pin] scenario_start scenario_dest scenario_direct =
     directCandidate [scenario_pin] scenario_start scenario_dest scenario_direct #
     map (\<lambda>ty. \<lparr>coords = map toLatLng (geometry_coordinates x), data = x, conflicts = k,
                  type = ty, score = real (length k) * 1000000 + data_duration x\<rparr>) labels"
  unfolding allCandidates_def Let_def
  by (simp add: scenario_directCandidate scenario_candidates_routes [OF assms])

text \<open>
  Claim C1, as amended.  In every route calculation with a direct route, each scored
  candidate's conflicts are those of its own path, its score is the number of its
  conflicts times 1,000,000 plus its duration in seconds, and the selected candidate is one
  of them and has the lowest score.  In particular, whenever the direct path has exactly
  one conflict, durations are non-negative and some candidate has zero conflicts and a
  duration below 1,000,000 seconds, the selected candidate has zero conflicts and is not
  the direct path.
\<close>

theorem selection_by_score:
  assumes "fetchOSRMRoute fetch start dest None = Some r"
  shows "\<exists>winner. selectRoute fetch start dest pins = Inr winner
     \<and> winner \<in> set (allCandidates fetch pins start dest r)
     \<and> (\<forall>c \<in> set (allCandidates fetch pins start dest r).
           conflicts c = checkRouteConflicts (coords c) pins start dest
           \<and> score c = real (length (conflicts c)) * 1000000 + data_duration (data c)
           \<and> score winner \<le> score c)
     \<and> (length (conflicts (directCandidate pins start dest r)) = 1
         \<and> (\<exists>alt \<in> set (allCandidates fetch pins start dest r).
               conflicts alt = [] \<and> data_duration (data alt) < 1000000)
         \<and> (\<forall>c \<in> set (allCandidates fetch pins start dest r). 0 \<le> data_duration (data c))
         \<longrightarrow> conflicts winner = [] \<and> winner \<noteq> directCandidate pins start dest r)"
proof -
  let ?cs = "allCandidates fetch pins start dest r"
  from selectRoute_min [OF assms, of pins] obtain winner
    where s: "selectRoute fetch start dest pins = Inr winner" and m: "winner \<in> set ?cs"
      and lo: "\<forall>c \<in> set ?cs. score winner \<le> score c" by blast
  have sc: "\<forall>c \<in> set ?cs. scored pins start dest c" by (blast intro: allCandidates_scored)
  have z: "conflicts winner = []"
    if "alt \<in> set ?cs" "conflicts alt = []" "data_duration (data alt) < 1000000"
      "\<forall>c \<in> set ?cs. 0 \<le> data_duration (data c)" for alt
    using that sc lo m by (intro zero_conflict_wins [of pins start dest winner alt]) auto
  have "length (conflicts (directCandidate pins start dest r)) = 1 \<Longrightarrow> conflicts winner = []
     \<Longrightarrow> winner \<noteq> directCandidate pins start dest r" by auto
  then show ?thesis using s m lo sc z unfolding scored_def by blast
qed

theorem selection_by_score_witness:
  "\<exists>winner. selectRoute (scenario_fetch (Routes [scenario_detour 1200])) scenario_start scenario_dest
        [scenario_pin] = Inr winner
     \<and> conflicts winner = [] \<and> score winner = 1200 \<and> type winner = ''left-300''
     \<and> score (directCandidate [scenario_pin] scenario_start scenario_dest scenario_direct) = 1000300"
proof -
  let ?cs = "allCandidates (scenario_fetch (Routes [scenario_detour 1200])) [scenario_pin]
     scenario_start scenario_dest scenario_direct"
  have cs: "?cs = directCandidate [scenario_pin] scenario_start scenario_dest scenario_direct #
     map (\<lambda>ty. \<lparr>coords = map toLatLng (geometry_coordinates (scenario_detour 1200)),
                  data = scenario_detour 1200, conflicts = [],
                  type = ty, score = real (length ([] :: Pin list)) * 1000000 + data_duration (scenario_detour 1200)\<rparr>) labels"
    by (rule scenario_allCandidates [OF scenario_detour_conflicts])
  have h1: "length (conflicts (directCandidate [scenario_pin] scenario_start scenario_dest scenario_direct)) = 1"
    by (simp add: scenario_directCandidate)
  have h2: "\<exists>alt \<in> set ?cs. conflicts alt = [] \<and> data_duration (data alt) < 1000000"
    unfolding cs by (simp add: labels_def scenario_detour_def)
  have h3: "\<forall>c \<in> set ?cs. 0 \<le> data_duration (data c)"
    unfolding cs by (simp add: labels_def scenario_detour_def directCandidate_fields)
      (simp add: scenario_direct_def)
  from selection_by_score [OF scenario_fetch_direct, of "Routes [scenario_detour 1200]" "[scenario_pin]"] h1 h2 h3
  obtain winner where "selectRoute (scenario_fetch (Routes [scenario_detour 1200])) scenario_start
      scenario_dest [scenario_pin] = Inr winner" and "conflicts winner = []"
    by blast
  then show ?thesis
    by (auto simp: scenario_select_detour_1200 scenario_directCandidate)
qed

text \<open>
  Claim C1 as stated fails: in the scenario the direct path (300 s) has exactly one
  conflict and the returned alternative has none, but with a duration of 2,000,000 s the
  alternative scores 2,000,000 against 1,000,300 and the direct path is selected.
\<close>

theorem selection_regardless_counterexample:
  "fetchOSRMRoute (scenario_fetch (Routes [scenario_detour 2000000])) scenario_start scenario_dest None
     = Some scenario_direct
   \<and> conflicts (directCandidate [scenario_pin] scenario_start scenario_dest scenario_direct) = [scenario_pin]
   \<and> \<lparr>coords = map toLatLng (geometry_coordinates (scenario_detour 2000000)),
       data = scenario_detour 2000000, conflicts = [], type = ''left-300'', score = 2000000\<rparr>
       \<in> set (allCandidates (scenario_fetch (Routes [scenario_detour 2000000])) [scenario_pin]
                scenario_start scenario_dest scenario_direct)
   \<and> selectRoute (scenario_fetch (Routes [scenario_detour 2000000])) scenario_start scenario_dest
        [scenario_pin]
      = Inr (directCandidate [scenario_pin] scenario_start scenario_dest scenario_direct)"
  unfolding scenario_allCandidates [OF scenario_detour_conflicts] scenario_select_detour_slow
  by (simp add: scenario_fetch_direct scenario_directCandidate labels_def scenario_detour_def)

text \<open>
  Claim C3.  In every route calculation in which the direct path has conflicts, the
  selected candidate is the first candidate of lowest score in the candidate list: no
  candidate scores lower and every earlier candidate scores strictly higher.  The list is
  the direct path followed by the routes returned for the offsets 300, 600, 1000 and 1500
  in this order, the left candidate before the right one for each offset.
\<close>

theorem selection_stable_minimum:
  assumes "fetchOSRMRoute fetch start dest None = Some r"
    and "conflicts (directCandidate pins start dest r) = p # ps"
  shows "\<exists>cs i. cs = candidates fetch pins start dest (directCandidate pins start dest r) p
     \<and> cs = directCandidate pins start dest r #
            List.map_filter
              (\<lambda>(wp, ty). evaluate pins start dest (fetchOSRMRoute fetch start dest (Some wp)) ty)
              [(getDestinationPoint p 300 (getBearing start dest - 90), ''left-300''),
               (getDestinationPoint p 300 (getBearing start dest + 90), ''right-300''),
               (getDestinationPoint p 600 (getBearing start dest - 90), ''left-600''),
               (getDestinationPoint p 600 (getBearing start dest + 90), ''right-600''),
               (getDestinationPoint p 1000 (getBearing start dest - 90), ''left-1000''),
               (getDestinationPoint p 1000 (getBearing start dest + 90), ''right-1000''),
               (getDestinationPoint p 1500 (getBearing start dest - 90), ''left-1500''),
               (getDestinationPoint p 1500 (getBearing start dest + 90), ''right-1500'')]
     \<and> i < length cs
     \<and> selectRoute fetch start dest pins = Inr (cs ! i)
     \<and> (\<forall>j < length cs. score (cs ! i) \<le> score (cs ! j))
     \<and> (\<forall>j < i. score (cs ! i) < score (cs ! j))"
proof -
  let ?cs = "candidates fetch pins start dest (directCandidate pins start dest r) p"
  have ne: "?cs \<noteq> []" by (rule candidates_nonempty)
  from hd_sort_key_first_min [OF ne, of score] obtain i where "i < length ?cs"
    and "hd (sort_key score ?cs) = ?cs ! i"
    and "\<forall>j < length ?cs. score (?cs ! i) \<le> score (?cs ! j)"
    and "\<forall>j < i. score (?cs ! i) < score (?cs ! j)" by blast
  moreover have "selectRoute fetch start dest pins = Inr (hd (sort_key score ?cs))"
    by (rule selectRoute_detour [OF assms])
  moreover have "?cs = directCandidate pins start dest r #
            List.map_filter
              (\<lambda>(wp, ty). evaluate pins start dest (fetchOSRMRoute fetch start dest (Some wp)) ty)
              [(getDestinationPoint p 300 (getBearing start dest - 90), ''left-300''),
               (getDestinationPoint p 300 (getBearing start dest + 90), ''right-300''),
               (getDestinationPoint p 600 (getBearing start dest - 90), ''left-600''),
               (getDestinationPoint p 600 (getBearing start dest + 90), ''right-600''),
               (getDestinationPoint p 1000 (getBearing start dest - 90), ''left-1000''),
               (getDestinationPoint p 1000 (getBearing start dest + 90), ''right-1000''),
               (getDestinationPoint p 1500 (getBearing start dest - 90), ''left-1500''),
               (getDestinationPoint p 1500 (getBearing start dest + 90), ''right-1500'')]"
    unfolding candidates_eq detourWaypoints_eq by (rule refl)
  ultimately show ?thesis by (intro exI [of _ ?cs] exI [of _ i]) simp
qed

theorem selection_stable_minimum_witness:
  "selectRoute (scenario_fetch (Routes [scenario_direct])) scenario_start scenario_dest [scenario_pin]
     = Inr (directCandidate [scenario_pin] scenario_start scenario_dest scenario_direct)
   \<and> map score (candidates (scenario_fetch (Routes [scenario_direct])) [scenario_pin]
          scenario_start scenario_dest
          (directCandidate [scenario_pin] scenario_start scenario_dest scenario_direct) scenario_pin)
     = replicate 9 1000300"
proof -
  let ?d = "directCandidate [scenario_pin] scenario_start scenario_dest scenario_direct"
  let ?cs = "candidates (scenario_fetch (Routes [scenario_direct])) [scenario_pin]
          scenario_start scenario_dest ?d scenario_pin"
  have c: "conflicts ?d = scenario_pin # []" by (simp add: scenario_directCandidate)
  have cs: "?cs = ?d # map (\<lambda>ty. \<lparr>coords = map toLatLng (geometry_coordinates scenario_direct),
        data = scenario_direct, conflicts = [scenario_pin], type = ty,
        score = real (length [scenario_pin]) * 1000000 + data_duration scenario_direct\<rparr>) labels"
    by (rule scenario_candidates_routes [OF scenario_direct_conflicts])
  have sc: "map score ?cs = replicate 9 1000300"
    unfolding cs by (simp add: labels_def scenario_directCandidate)
      (simp add: scenario_direct_def numeral_eq_Suc)
  have all: "score (?cs ! j) = 1000300" if "j < length ?cs" for j
  proof -
    have "score (?cs ! j) = map score ?cs ! j" using that by simp
    also have "\<dots> = 1000300" unfolding sc using that length_map [of score ?cs] sc by simp
    finally show ?thesis .
  qed
  from selection_stable_minimum [OF scenario_fetch_direct c, of "Routes [scenario_direct]"]
  obtain i where i: "i < length ?cs"
    and s: "selectRoute (scenario_fetch (Routes [scenario_direct])) scenario_start scenario_dest
              [scenario_pin] = Inr (?cs ! i)"
    and st: "\<forall>j < i. score (?cs ! i) < score (?cs ! j)" by blast
  have "i = 0"
  proof (rule ccontr)
    assume "i \<noteq> 0"
    then have "0 < i" by simp
    then have "score (?cs ! i) < score (?cs ! 0)" using st by blast
    moreover have "0 < length ?cs" using i by linarith
    ultimately show False using all [OF i] all [of 0] by simp
  qed
  then have "selectRoute (scenario_fetch (Routes [scenario_direct])) scenario_start scenario_dest
              [scenario_pin] = Inr ?d" using s by (simp add: candidates_eq)
  then show ?thesis using sc by simp
qed

section \<open>The detour search and the failure outcome\<close>







lemma getSafeRoute_try_Inr:
  assumes "selectRoute (routing env) start dest pins = Inr sel"
  shows "getSafeRoute_try env start dest name pins =
     (case narrative env \<lparr>prompt_start = start, prompt_destinationName = name,
               prompt_duration = formatDuration (data_duration (data sel)),
               prompt_isDetour = (type sel \<noteq> ''direct''),
               prompt_dangerCount = length (conflicts sel)\<rparr> of
        AiRejected \<Rightarrow> Inl AiError
      | reply \<Rightarrow> Inr \<lparr>route = coords sel,
                      duration = Some (formatDuration (data_duration (data sel))),
                      safetyNote = Some (safetyNoteOf reply (length (conflicts sel)))\<rparr>)"
  using assms by (simp add: getSafeRoute_try_def Let_def)

lemma getSafeRoute_try_rejected:
  assumes "narrative env = (\<lambda>_. AiRejected)"
  shows "\<exists>e. getSafeRoute_try env start dest name pins = Inl e"
proof (cases "selectRoute (routing env) start dest pins")
  case (Inl e)
  then show ?thesis by (simp add: getSafeRoute_try_def)
next
  case (Inr sel)
  then show ?thesis using assms by (simp add: getSafeRoute_try_Inr)
qed

lemma getSafeRoute_try_replied:
  assumes "selectRoute (routing env) start dest pins = Inr sel"
    and "narrative env = (\<lambda>_. reply)" and "reply \<noteq> AiRejected"
  shows "getSafeRoute_try env start dest name pins =
     Inr \<lparr>route = coords sel, duration = Some (formatDuration (data_duration (data sel))),
          safetyNote = Some (safetyNoteOf reply (length (conflicts sel)))\<rparr>"
  using assms(2,3) unfolding getSafeRoute_try_Inr [OF assms(1)]
  by (cases reply) simp_all

lemma getSafeRoute_Inl:
  "getSafeRoute_try env start dest name pins = Inl e \<Longrightarrow>
   getSafeRoute env start dest name pins =
     \<lparr>route = [], duration = None,
      safetyNote = Some ''Could not calculate safe route. Please check your internet connection.''\<rparr>"
  by (simp add: getSafeRoute_def)

lemma getSafeRoute_Inr:
  "getSafeRoute_try env start dest name pins = Inr r \<Longrightarrow>
   getSafeRoute env start dest name pins = r"
  by (simp add: getSafeRoute_def)

lemma safetyNoteOf_fallback:
  assumes "reply = NoText \<or> reply = Unparsable \<or> reply = NoSafetyNote \<or> reply = SafetyNote []"
  shows "safetyNoteOf reply n =
     (if 0 < n
      then ''Warning: Safe path not possible. This route still passes near reported danger zones.''
      else ''Stay aware of your surroundings.'')"
  using assms by (auto simp: safetyNoteOf_def Let_def)

lemma foldl_unchanged: "foldl (\<lambda>acc pt. acc) acc path = acc"
  by (induction path) simp_all

lemma checkRouteConflicts_no_pins: "checkRouteConflicts path [] startLoc endLoc = []"
  by (simp add: checkRouteConflicts_def foldl_unchanged)

lemma scenario_select_clear:
  "selectRoute (scenario_fetch x) scenario_start scenario_dest ([] :: Pin list) =
     Inr \<lparr>coords = map toLatLng (geometry_coordinates scenario_direct), data = scenario_direct,
          conflicts = [], type = ''direct'', score = 300\<rparr>"
proof -
  have d: "directCandidate ([] :: Pin list) scenario_start scenario_dest scenario_direct =
     \<lparr>coords = map toLatLng (geometry_coordinates scenario_direct), data = scenario_direct,
      conflicts = [], type = ''direct'', score = 300\<rparr>"
    by (simp add: directCandidate_def Let_def checkRouteConflicts_no_pins)
       (simp add: scenario_direct_def)
  show ?thesis
    using selectRoute_clear [OF scenario_fetch_direct, of "[] :: Pin list" x] by (simp add: d)
qed

lemma scenario_duration: "formatDuration (data_duration scenario_direct) = ''6 min walk''"
  by (simp add: scenario_direct_def fd_eval fl_eval show_eval)

lemma scenario_duration_detour: "formatDuration (data_duration (scenario_detour 1200)) = ''24 min walk''"
  by (simp add: scenario_detour_def fd_eval fl_eval show_eval)


lemma getSafeRoute_fallback:
  assumes "selectRoute (routing env) start dest pins = Inr sel"
    and "narrative env = (\<lambda>_. reply)"
    and "reply = NoText \<or> reply = Unparsable \<or> reply = NoSafetyNote"
  shows "getSafeRoute env start dest name pins =
     \<lparr>route = coords sel, duration = Some (formatDuration (data_duration (data sel))),
      safetyNote = Some (if conflicts sel = [] then ''Stay aware of your surroundings.''
         else ''Warning: Safe path not possible. This route still passes near reported danger zones.'')\<rparr>"
proof -
  have r: "reply \<noteq> AiRejected" using assms(3) by auto
  have n: "safetyNoteOf reply (length (conflicts sel)) =
     (if conflicts sel = [] then ''Stay aware of your surroundings.''
      else ''Warning: Safe path not possible. This route still passes near reported danger zones.'')"
    using assms(3) by (subst safetyNoteOf_fallback) auto
  show ?thesis
    using getSafeRoute_try_replied [OF assms(1,2) r, of name] n
    by (simp add: getSafeRoute_def)
qed



text \<open>
  Claim C9.  When the \<open>try\<close> block returns, the response is the selected route with a
  defined duration, the formatted duration of the selected route, and a defined safety
  note.  When an exception reaches the \<open>catch\<close>, the response has the empty route, no
  duration and the fixed apology.  One of the two always happens.
\<close>

theorem response_shape:
  "(\<forall>r. getSafeRoute_try env start dest name pins = Inr r \<longrightarrow>
        getSafeRoute env start dest name pins = r
        \<and> (\<exists>sel note. selectRoute (routing env) start dest pins = Inr sel
              \<and> route r = coords sel
              \<and> duration r = Some (formatDuration (data_duration (data sel)))
              \<and> safetyNote r = Some note))
   \<and> (\<forall>e. getSafeRoute_try env start dest name pins = Inl e \<longrightarrow>
        getSafeRoute env start dest name pins =
          \<lparr>route = [], duration = None,
           safetyNote = Some ''Could not calculate safe route. Please check your internet connection.''\<rparr>)
   \<and> ((\<exists>r. getSafeRoute_try env start dest name pins = Inr r)
        \<or> (\<exists>e. getSafeRoute_try env start dest name pins = Inl e))"
proof -
  have a: "getSafeRoute env start dest name pins = r
        \<and> (\<exists>sel note. selectRoute (routing env) start dest pins = Inr sel
              \<and> route r = coords sel
              \<and> duration r = Some (formatDuration (data_duration (data sel)))
              \<and> safetyNote r = Some note)"
    if r: "getSafeRoute_try env start dest name pins = Inr r" for r
  proof (cases "selectRoute (routing env) start dest pins")
    case (Inl e)
    then show ?thesis using r by (simp add: getSafeRoute_try_def)
  next
    case (Inr sel)
    have "\<exists>reply. r = \<lparr>route = coords sel,
        duration = Some (formatDuration (data_duration (data sel))),
        safetyNote = Some (safetyNoteOf reply (length (conflicts sel)))\<rparr>"
      using r unfolding getSafeRoute_try_Inr [OF Inr] by (auto split: AiReply.splits)
    then obtain reply where rr: "r = \<lparr>route = coords sel,
        duration = Some (formatDuration (data_duration (data sel))),
        safetyNote = Some (safetyNoteOf reply (length (conflicts sel)))\<rparr>" ..
    show ?thesis using getSafeRoute_Inr [OF r] Inr by (simp add: rr)
  qed
  have b: "(\<exists>r. getSafeRoute_try env start dest name pins = Inr r)
        \<or> (\<exists>e. getSafeRoute_try env start dest name pins = Inl e)"
    by (cases "getSafeRoute_try env start dest name pins") auto
  show ?thesis using a b by (auto simp: getSafeRoute_Inl)
qed

theorem response_shape_witness:
  "getSafeRoute \<lparr>routing = scenario_fetch (Routes [scenario_detour 1200]),
                 narrative = \<lambda>_. SafetyNote ''Route adjusted for safety.''\<rparr>
      scenario_start scenario_dest ''Library'' [scenario_pin]
     = \<lparr>route = map toLatLng (geometry_coordinates (scenario_detour 1200)),
        duration = Some ''24 min walk'', safetyNote = Some ''Route adjusted for safety.''\<rparr>
   \<and> getSafeRoute \<lparr>routing = \<lambda>_. NoRoutes, narrative = \<lambda>_. SafetyNote ''Route adjusted for safety.''\<rparr>
      scenario_start scenario_dest ''Library'' [scenario_pin]
     = \<lparr>route = [], duration = None,
        safetyNote = Some ''Could not calculate safe route. Please check your internet connection.''\<rparr>"
proof -
  let ?ok = "\<lparr>routing = scenario_fetch (Routes [scenario_detour 1200]),
                 narrative = \<lambda>_. SafetyNote ''Route adjusted for safety.''\<rparr>"
  let ?ko = "\<lparr>routing = \<lambda>_. NoRoutes, narrative = \<lambda>_. SafetyNote ''Route adjusted for safety.''\<rparr>"
  let ?r = "\<lparr>route = map toLatLng (geometry_coordinates (scenario_detour 1200)),
        duration = Some ''24 min walk'', safetyNote = Some ''Route adjusted for safety.''\<rparr>"
  have s: "selectRoute (routing ?ok) scenario_start scenario_dest [scenario_pin] =
     Inr \<lparr>coords = map toLatLng (geometry_coordinates (scenario_detour 1200)),
          data = scenario_detour 1200, conflicts = [], type = ''left-300'', score = 1200\<rparr>"
    by (simp add: scenario_select_detour_1200)
  have ok: "getSafeRoute_try ?ok scenario_start scenario_dest ''Library'' [scenario_pin] = Inr ?r"
    unfolding getSafeRoute_try_Inr [OF s]
    by (simp add: scenario_duration_detour safetyNoteOf_def)
  have "selectRoute (routing ?ko) scenario_start scenario_dest [scenario_pin] = Inl NoRouteFound"
    by (rule selectRoute_no_route) (simp add: fetchOSRMRoute_def)
  then have ko: "getSafeRoute_try ?ko scenario_start scenario_dest ''Library'' [scenario_pin]
      = Inl NoRouteFound"
    by (simp add: getSafeRoute_try_def)
  show ?thesis
    using response_shape [of ?ok scenario_start scenario_dest "''Library''" "[scenario_pin]"]
      response_shape [of ?ko scenario_start scenario_dest "''Library''" "[scenario_pin]"] ok ko
    by simp
qed

lemma getSafeRoute_rejected:
  "getSafeRoute (env\<lparr>narrative := \<lambda>_. AiRejected\<rparr>) start dest name pins =
     \<lparr>route = [], duration = None,
      safetyNote = Some ''Could not calculate safe route. Please check your internet connection.''\<rparr>"
proof -
  have "narrative (env\<lparr>narrative := \<lambda>_. AiRejected\<rparr>) = (\<lambda>_. AiRejected)" by simp
  from getSafeRoute_try_rejected [OF this, of start dest name pins]
  obtain e where "getSafeRoute_try (env\<lparr>narrative := \<lambda>_. AiRejected\<rparr>) start dest name pins = Inl e"
    by blast
  then show ?thesis by (rule getSafeRoute_Inl)
qed

lemma scenario_clear_reply:
  assumes "reply \<noteq> AiRejected"
  shows "getSafeRoute \<lparr>routing = scenario_fetch x, narrative = \<lambda>_. reply\<rparr>
      scenario_start scenario_dest name ([] :: Pin list) =
     \<lparr>route = map toLatLng (geometry_coordinates scenario_direct), duration = Some ''6 min walk'',
      safetyNote = Some (safetyNoteOf reply 0)\<rparr>"
proof -
  let ?env = "\<lparr>routing = scenario_fetch x, narrative = \<lambda>_. reply\<rparr>"
  have s: "selectRoute (routing ?env) scenario_start scenario_dest ([] :: Pin list) =
     Inr \<lparr>coords = map toLatLng (geometry_coordinates scenario_direct), data = scenario_direct,
          conflicts = [], type = ''direct'', score = 300\<rparr>"
    by (simp add: scenario_select_clear)
  have "getSafeRoute_try ?env scenario_start scenario_dest name ([] :: Pin list) =
     Inr \<lparr>route = map toLatLng (geometry_coordinates scenario_direct), duration = Some ''6 min walk'',
      safetyNote = Some (safetyNoteOf reply 0)\<rparr>"
    using getSafeRoute_try_replied [OF s _ assms, of name] by (simp add: scenario_duration)
  then show ?thesis by (rule getSafeRoute_Inr)
qed

text \<open>
  Claim C5, on the input where the code departs from it.  The provider returns the direct
  route, the narrative call rejects, and \<open>getSafeRoute\<close> returns the failure outcome: the
  same response as when the provider returns no route.
\<close>

theorem failure_without_no_route:
  "fetchOSRMRoute (scenario_fetch (Routes [scenario_detour 1200])) scenario_start scenario_dest None
     = Some scenario_direct
   \<and> getSafeRoute \<lparr>routing = scenario_fetch (Routes [scenario_detour 1200]), narrative = \<lambda>_. AiRejected\<rparr>
        scenario_start scenario_dest ''Library'' [scenario_pin]
     = \<lparr>route = [], duration = None,
        safetyNote = Some ''Could not calculate safe route. Please check your internet connection.''\<rparr>
   \<and> getSafeRoute \<lparr>routing = \<lambda>_. NoRoutes, narrative = \<lambda>_. NoText\<rparr>
        scenario_start scenario_dest ''Library'' [scenario_pin]
     = \<lparr>route = [], duration = None,
        safetyNote = Some ''Could not calculate safe route. Please check your internet connection.''\<rparr>"
proof -
  have a: "getSafeRoute \<lparr>routing = scenario_fetch (Routes [scenario_detour 1200]), narrative = \<lambda>_. AiRejected\<rparr>
        scenario_start scenario_dest ''Library'' [scenario_pin]
     = \<lparr>route = [], duration = None,
        safetyNote = Some ''Could not calculate safe route. Please check your internet connection.''\<rparr>"
    using getSafeRoute_rejected [of "\<lparr>routing = scenario_fetch (Routes [scenario_detour 1200]), narrative = \<lambda>_. NoText\<rparr>"
        scenario_start scenario_dest "''Library''" "[scenario_pin]"]
    by simp
  have "selectRoute (\<lambda>_. NoRoutes) scenario_start scenario_dest [scenario_pin] = Inl NoRouteFound"
    by (rule selectRoute_no_route) (simp add: fetchOSRMRoute_def)
  then have "getSafeRoute_try \<lparr>routing = \<lambda>_. NoRoutes, narrative = \<lambda>_. NoText\<rparr>
        scenario_start scenario_dest ''Library'' [scenario_pin] = Inl NoRouteFound"
    by (simp add: getSafeRoute_try_def)
  then have b: "getSafeRoute \<lparr>routing = \<lambda>_. NoRoutes, narrative = \<lambda>_. NoText\<rparr>
        scenario_start scenario_dest ''Library'' [scenario_pin]
     = \<lparr>route = [], duration = None,
        safetyNote = Some ''Could not calculate safe route. Please check your internet connection.''\<rparr>"
    by (rule getSafeRoute_Inl)
  show ?thesis using a b by (simp add: scenario_fetch_direct)
qed

text \<open>
  Claim C6, on the inputs where the code departs from it.  Whatever the routes, a
  rejection of the narrative call gives the failure outcome and not a route with the
  fallback sentence; in the scenario without pins, a reply without text, an unparsable
  reply and a reply without the field each give the direct route with the sentence
  ``Stay aware of your surroundings.''.
\<close>

theorem narrative_rejection_not_degraded:
  "getSafeRoute (env\<lparr>narrative := \<lambda>_. AiRejected\<rparr>) start dest name pins
     = \<lparr>route = [], duration = None,
        safetyNote = Some ''Could not calculate safe route. Please check your internet connection.''\<rparr>
   \<and> getSafeRoute \<lparr>routing = scenario_fetch NoRoutes, narrative = \<lambda>_. AiRejected\<rparr>
        scenario_start scenario_dest ''Library'' ([] :: Pin list)
     = \<lparr>route = [], duration = None,
        safetyNote = Some ''Could not calculate safe route. Please check your internet connection.''\<rparr>
   \<and> getSafeRoute \<lparr>routing = scenario_fetch NoRoutes, narrative = \<lambda>_. Unparsable\<rparr>
        scenario_start scenario_dest ''Library'' ([] :: Pin list)
     = \<lparr>route = map toLatLng (geometry_coordinates scenario_direct), duration = Some ''6 min walk'',
        safetyNote = Some ''Stay aware of your surroundings.''\<rparr>
   \<and> getSafeRoute \<lparr>routing = scenario_fetch NoRoutes, narrative = \<lambda>_. NoSafetyNote\<rparr>
        scenario_start scenario_dest ''Library'' ([] :: Pin list)
     = \<lparr>route = map toLatLng (geometry_coordinates scenario_direct), duration = Some ''6 min walk'',
        safetyNote = Some ''Stay aware of your surroundings.''\<rparr>
   \<and> getSafeRoute \<lparr>routing = scenario_fetch NoRoutes, narrative = \<lambda>_. NoText\<rparr>
        scenario_start scenario_dest ''Library'' ([] :: Pin list)
     = \<lparr>route = map toLatLng (geometry_coordinates scenario_direct), duration = Some ''6 min walk'',
        safetyNote = Some ''Stay aware of your surroundings.''\<rparr>"
proof -
  have "getSafeRoute \<lparr>routing = scenario_fetch NoRoutes, narrative = \<lambda>_. AiRejected\<rparr>
        scenario_start scenario_dest ''Library'' ([] :: Pin list)
     = \<lparr>route = [], duration = None,
        safetyNote = Some ''Could not calculate safe route. Please check your internet connection.''\<rparr>"
    using getSafeRoute_rejected [of "\<lparr>routing = scenario_fetch NoRoutes, narrative = \<lambda>_. NoText\<rparr>"
        scenario_start scenario_dest "''Library''" "[] :: Pin list"]
    by simp
  then show ?thesis
    by (simp add: getSafeRoute_rejected scenario_clear_reply safetyNoteOf_fallback)
qed

section \<open>The local-storage backend\<close>

lemma getLocalPinsSync_stored:
  "localStorage b STORAGE_KEY = Some (PinsJSON ps) \<Longrightarrow> getLocalPinsSync b = ps"
  by (simp add: getLocalPinsSync_def)

lemma getLocalPinsSync_addPin:
  "getLocalPinsSync (snd (addPin randomId now pin b)) =
     getLocalPinsSync b @ [pin\<lparr>pin_id := randomId, timestamp := now\<rparr>]"
  by (rule getLocalPinsSync_stored) (simp add: addPin_def Let_def)

lemma getLocalPinsSync_removePin:
  "getLocalPinsSync (removePin pinId b) = filter (\<lambda>p. pin_id p \<noteq> pinId) (getLocalPinsSync b)"
  by (rule getLocalPinsSync_stored) (simp add: removePin_def Let_def)

text \<open>
  Claim C10.  In the local-storage backend \<open>addPin\<close> stores the previous list followed by
  the new pin, so that every previous pin keeps its position and its value, and
  \<open>removePin\<close> stores the previous list without the pins whose identifier is the given
  one: the other pins are all kept, unchanged and in their relative order.  Neither changes
  an item of another key.
\<close>

theorem local_storage_frame:
  "fst (addPin randomId now pin b) = pin\<lparr>pin_id := randomId, timestamp := now\<rparr>
   \<and> getLocalPinsSync (snd (addPin randomId now pin b)) =
       getLocalPinsSync b @ [fst (addPin randomId now pin b)]
   \<and> prefix (getLocalPinsSync b) (getLocalPinsSync (snd (addPin randomId now pin b)))
   \<and> (\<forall>i < length (getLocalPinsSync b).
         getLocalPinsSync (snd (addPin randomId now pin b)) ! i = getLocalPinsSync b ! i)
   \<and> getLocalPinsSync (removePin pinId b) =
       filter (\<lambda>p. pin_id p \<noteq> pinId) (getLocalPinsSync b)
   \<and> set (getLocalPinsSync (removePin pinId b)) =
       {p \<in> set (getLocalPinsSync b). pin_id p \<noteq> pinId}
   \<and> subseq (getLocalPinsSync (removePin pinId b)) (getLocalPinsSync b)
   \<and> (\<forall>k. k \<noteq> STORAGE_KEY \<longrightarrow>
         localStorage (snd (addPin randomId now pin b)) k = localStorage b k
         \<and> localStorage (removePin pinId b) k = localStorage b k)"
proof -
  have f: "fst (addPin randomId now pin b) = pin\<lparr>pin_id := randomId, timestamp := now\<rparr>"
    by (simp add: addPin_def Let_def)
  have a: "getLocalPinsSync (snd (addPin randomId now pin b)) =
       getLocalPinsSync b @ [fst (addPin randomId now pin b)]"
    unfolding f by (rule getLocalPinsSync_addPin)
  have p: "prefix (getLocalPinsSync b) (getLocalPinsSync (snd (addPin randomId now pin b)))"
    unfolding a by simp
  have n: "\<forall>i < length (getLocalPinsSync b).
         getLocalPinsSync (snd (addPin randomId now pin b)) ! i = getLocalPinsSync b ! i"
    unfolding a by (simp add: nth_append)
  have r: "getLocalPinsSync (removePin pinId b) =
       filter (\<lambda>p. pin_id p \<noteq> pinId) (getLocalPinsSync b)"
    by (rule getLocalPinsSync_removePin)
  have s: "set (getLocalPinsSync (removePin pinId b)) =
       {p \<in> set (getLocalPinsSync b). pin_id p \<noteq> pinId}"
    unfolding r by simp
  have q: "subseq (getLocalPinsSync (removePin pinId b)) (getLocalPinsSync b)"
    unfolding r by simp
  have k: "\<forall>k. k \<noteq> STORAGE_KEY \<longrightarrow>
         localStorage (snd (addPin randomId now pin b)) k = localStorage b k
         \<and> localStorage (removePin pinId b) k = localStorage b k"
    by (simp add: addPin_def removePin_def Let_def)
  from f a p n r s q k show ?thesis by (simp only: simp_thms)
qed

theorem local_storage_frame_witness:
  "getLocalPinsSync (removePin ''a'' browser0) =
     [scenario_pin\<lparr>pin_id := ''b'', safetyLevel := SAFE\<rparr>, scenario_pin\<lparr>pin_id := ''c''\<rparr>]
   \<and> getLocalPinsSync (snd (addPin ''x7k2q9d'' 1700000000000 (scenario_pin\<lparr>lat := 2\<rparr>) browser0)) =
     stored_pins @ [scenario_pin\<lparr>lat := 2, pin_id := ''x7k2q9d'', timestamp := 1700000000000\<rparr>]
   \<and> localStorage (removePin ''a'' browser0) ''theme'' = Some NotJSON
   \<and> localStorage (snd (addPin ''x7k2q9d'' 1700000000000 (scenario_pin\<lparr>lat := 2\<rparr>) browser0)) ''theme''
       = Some NotJSON"
proof -
  have g: "getLocalPinsSync browser0 = stored_pins"
    by (simp add: getLocalPinsSync_def browser0_def STORAGE_KEY_def)
  have t: "''theme'' \<noteq> STORAGE_KEY" by (simp add: STORAGE_KEY_def)
  have l: "localStorage browser0 ''theme'' = Some NotJSON"
    using t by (simp add: browser0_def)
  show ?thesis
    using local_storage_frame [of "''x7k2q9d''" 1700000000000 "scenario_pin\<lparr>lat := 2\<rparr>" browser0 "''a''"]
      g t l
    by (simp add: stored_pins_def scenario_pin_def)
qed

end
